theory Spec2Isabelle
  imports Main "HOL-Library.Sublist"
begin

text \<open>
  The property tree of \<^verbatim>\<open>projects/schema-form/src/lib/model/formproperty.ts\<close>: the classes
  \<^verbatim>\<open>FormProperty\<close> and \<^verbatim>\<open>PropertyGroup\<close> with path resolution, validation, the upward
  propagation of value and validity, and the binding of visibility to other properties.
  Line numbers are those of that file.
\<close>

section \<open>JavaScript values\<close>

text \<open>
  The form values that \<^verbatim>\<open>formproperty.ts\<close> handles are of type \<^verbatim>\<open>any\<close>.  The model keeps the
  shapes the code distinguishes: \<^verbatim>\<open>null\<close>, \<^verbatim>\<open>undefined\<close>, booleans, numbers (integers
  only; \<^verbatim>\<open>NaN\<close> and fractions are left out), strings, arrays and plain objects.  Arrays and
  objects are references: they carry the address that \<^verbatim>\<open>===\<close> compares.  An object of the
  model has no member called \<^verbatim>\<open>length\<close>.
\<close>

datatype jsval =
    VNull
  | VUndefined
  | VBool bool
  | VNum int
  | VStr string
  | VArr nat "jsval list"
  | VObj nat

text \<open>Reading a member of \<^verbatim>\<open>null\<close> or \<^verbatim>\<open>undefined\<close>, or calling a method an object does
  not have, raises a \<^verbatim>\<open>TypeError\<close>.\<close>

datatype exn = TypeError

text \<open>A reference that may be \<^verbatim>\<open>null\<close> or \<^verbatim>\<open>undefined\<close>.\<close>

datatype 'a nullable = Null | Undefined | Obj 'a

text \<open>\<^verbatim>\<open>a === b\<close>.\<close>

fun strict_eq :: "jsval \<Rightarrow> jsval \<Rightarrow> bool" where
  "strict_eq VNull b = (b = VNull)"
| "strict_eq VUndefined b = (b = VUndefined)"
| "strict_eq (VBool x) b = (b = VBool x)"
| "strict_eq (VNum n) b = (b = VNum n)"
| "strict_eq (VStr s) b = (b = VStr s)"
| "strict_eq (VArr r xs) b = (case b of VArr r' ys \<Rightarrow> r = r' | _ \<Rightarrow> False)"
| "strict_eq (VObj r) b = (b = VObj r)"

text \<open>\<^verbatim>\<open>Array.prototype.indexOf\<close>: the first index whose element is \<^verbatim>\<open>===\<close> to the argument,
  or \<open>-1\<close>.\<close>

fun indexOf :: "jsval list \<Rightarrow> jsval \<Rightarrow> int" where
  "indexOf [] v = - 1"
| "indexOf (x # xs) v =
     (if strict_eq x v then 0
      else (let i = indexOf xs v in if i = - 1 then - 1 else i + 1))"

text \<open>\<^verbatim>\<open>value.length > 0\<close>.  A boolean, a number or an object has no \<^verbatim>\<open>length\<close>, and
  \<^verbatim>\<open>undefined > 0\<close> is false.\<close>

fun length_gt_0 :: "jsval \<Rightarrow> exn + bool" where
  "length_gt_0 VNull = Inl TypeError"
| "length_gt_0 VUndefined = Inl TypeError"
| "length_gt_0 (VStr s) = Inr (0 < length s)"
| "length_gt_0 (VArr r xs) = Inr (0 < length xs)"
| "length_gt_0 (VBool b) = Inr False"
| "length_gt_0 (VNum n) = Inr False"
| "length_gt_0 (VObj r) = Inr False"

text \<open>The function given to \<^verbatim>\<open>map\<close> on a dependency's value stream, lines 206-212 and
  again lines 270-276; \<open>allowed\<close> is \<^verbatim>\<open>visibleIf[dependencyPath]\<close>.\<close>

definition valueCheck :: "jsval list \<Rightarrow> jsval \<Rightarrow> exn + bool" where
  "valueCheck allowed v =
     (if indexOf allowed (VStr ''$ANY$'') \<noteq> - 1 then length_gt_0 v
      else Inr (indexOf allowed v \<noteq> - 1))"

section \<open>The property tree\<close>

text \<open>
  A \<^verbatim>\<open>FormProperty\<close> object.  Its fields \<^verbatim>\<open>_parent\<close> and \<^verbatim>\<open>_path\<close> are private and assigned
  in the constructor only, from a parent that exists already, so the chain of parents is
  finite: the object is modelled by a value that holds its parent.  \<open>isGroup\<close> is
  \<^verbatim>\<open>this instanceof PropertyGroup\<close>, and the parent \<open>None\<close> is \<^verbatim>\<open>null\<close>.  The object's identity
  is this value (the paths of a form are unique).
\<close>

datatype formProperty =
  FormProperty (isGroup: bool) (path: string) (parent: "formProperty option")

datatype error_descriptor = ErrorDescriptor (code: string)

text \<open>
  The mutable fields of one object.  \<open>priv_value\<close>, \<open>priv_errors\<close> and \<open>priv_visible\<close>
  are \<^verbatim>\<open>_value\<close>, \<^verbatim>\<open>_errors\<close> and \<^verbatim>\<open>_visible\<close>; \<open>valueChanges\<close> is the value the
  \<^verbatim>\<open>BehaviorSubject\<close> of that name holds.  The subjects \<^verbatim>\<open>_errorsChanges\<close> and
  \<^verbatim>\<open>_visibilityChanges\<close> are written together with \<^verbatim>\<open>_errors\<close> and \<^verbatim>\<open>_visible\<close> only
  (\<^verbatim>\<open>setErrors\<close>, \<^verbatim>\<open>setVisible\<close>) and start equal to them, so these two fields stand for
  the subjects' values too.  \<open>properties\<close> is the field of a \<^verbatim>\<open>PropertyGroup\<close>: \<^verbatim>\<open>null\<close>
  at first, then a dictionary (an array is a dictionary of its indices).
\<close>

record pstate =
  priv_value :: jsval
  priv_errors :: "error_descriptor list option"
  priv_visible :: bool
  valueChanges :: jsval
  properties :: "(string \<times> formProperty nullable) list option"

type_synonym heap = "formProperty \<Rightarrow> pstate"

text \<open>\<^verbatim>\<open>String.prototype.indexOf\<close> of a character.\<close>

fun str_indexOf :: "string \<Rightarrow> char \<Rightarrow> int" where
  "str_indexOf [] c = - 1"
| "str_indexOf (x # xs) c =
     (if x = c then 0
      else (let i = str_indexOf xs c in if i = - 1 then - 1 else i + 1))"

text \<open>\<^verbatim>\<open>PropertyGroup.getProperty\<close>, lines 300-310.  A key the dictionary does not have
  reads as \<^verbatim>\<open>undefined\<close>.\<close>

function getProperty :: "heap \<Rightarrow> formProperty \<Rightarrow> string \<Rightarrow> exn + formProperty nullable" where
  "getProperty h this pth =
     (if \<not> isGroup this then Inl TypeError
      else case properties (h this) of
        None \<Rightarrow> Inl TypeError
      | Some props \<Rightarrow>
          (let subPathIdx = str_indexOf pth CHR ''/'';
               propertyId = (if subPathIdx \<noteq> - 1 then take (nat subPathIdx) pth else pth);
               property = (case map_of props propertyId of None \<Rightarrow> Undefined | Some p \<Rightarrow> p)
           in case property of
                Obj child \<Rightarrow>
                  if subPathIdx \<noteq> - 1 \<and> isGroup child
                  then getProperty h child (drop (nat subPathIdx + 1) pth)
                  else Inr property
              | _ \<Rightarrow> Inr property))"
  by pat_completeness auto
termination
proof (relation "measure (\<lambda>(h, this, pth). length pth)")
  show "wf (measure (\<lambda>(h, this, pth). length pth))" by simp
next
  fix h :: heap and this :: formProperty and pth :: string
    and x2 x xa xb x3
  assume "x = str_indexOf pth CHR ''/''" and "x \<noteq> - 1 \<and> isGroup x3"
  then have "pth \<noteq> []" by auto
  then show "((h, x3, drop (nat x + 1) pth), h, this, pth) \<in> measure (\<lambda>(h, this, pth). length pth)"
    by simp
qed

text \<open>\<^verbatim>\<open>findRoot\<close>, lines 157-163.\<close>

fun findRoot :: "formProperty \<Rightarrow> formProperty" where
  "findRoot (FormProperty g p None) = FormProperty g p None"
| "findRoot (FormProperty g p (Some q)) = findRoot q"

text \<open>The loop of \<^verbatim>\<open>searchProperty\<close>, lines 149-152: \<open>prop\<close> and \<open>result\<close> are its
  variables.\<close>

fun searchLoop :: "heap \<Rightarrow> string \<Rightarrow> formProperty \<Rightarrow> formProperty nullable \<Rightarrow> exn + formProperty nullable" where
  "searchLoop h pth (FormProperty g p None) result = Inr result"
| "searchLoop h pth (FormProperty g p (Some base)) result =
     (if result = Null
      then (case getProperty h base pth of
              Inl e \<Rightarrow> Inl e
            | Inr r \<Rightarrow> searchLoop h pth base r)
      else Inr result)"

text \<open>\<^verbatim>\<open>searchProperty\<close>, lines 140-155.\<close>

definition searchProperty :: "heap \<Rightarrow> formProperty \<Rightarrow> string \<Rightarrow> exn + formProperty nullable" where
  "searchProperty h this pth =
     (if pth \<noteq> [] \<and> hd pth = CHR ''/''
      then getProperty h (findRoot this) (tl pth)
      else searchLoop h pth this Null)"

declare getProperty.simps [simp del]

section \<open>The subscriptions of the visibility binder\<close>

text \<open>
  A branch is one object of dependency paths and allowed values, its own keys in the order
  of \<^verbatim>\<open>for ... in\<close>.  \<^verbatim>\<open>schema.visibleIf\<close> is \<^verbatim>\<open>undefined\<close>, an object with \<^verbatim>\<open>oneOf\<close>, an
  object with \<^verbatim>\<open>allOf\<close> only, or a flat branch (\<open>Flat []\<close> is \<^verbatim>\<open>{}\<close>).
\<close>

type_synonym branch = "(string \<times> jsval list) list"

datatype visibleIf = NoVisibleIf | Flat branch | OneOf "branch list" | AllOf "branch list"

text \<open>
  One element of \<^verbatim>\<open>propertiesBinding\<close>: the stream
  \<^verbatim>\<open>combineLatest([valueCheck, visibilityCheck], (v1, v2) => v1 && v2)\<close> of one dependency,
  with the latest value each of its two inputs has delivered (\<open>None\<close> before the first).
\<close>

record slot =
  dependency :: formProperty
  allowedValues :: "jsval list"
  latestValueCheck :: "bool option"
  latestVisibility :: "bool option"

text \<open>Which function \<^verbatim>\<open>map\<close> applies to a dependency's values: the one of lines 206-212
  (and 270-276), or \<^verbatim>\<open>_chk\<close> with the items of \<^verbatim>\<open>allOf\<close>.\<close>

datatype checkKind = ValueCheck | AllOfCheck "branch list"

text \<open>
  One subscription of lines 244-248 (or 287-291): the streams of \<^verbatim>\<open>propertiesBinding\<close>, the
  value \<^verbatim>\<open>distinctUntilChanged\<close> let through last, and whether the subscription has ended
  with an error (a function given to \<^verbatim>\<open>map\<close> raised).
\<close>

record binding =
  kind :: checkKind
  slots :: "slot list"
  previous :: "bool option"
  stopped :: bool

text \<open>A stream of \<^verbatim>\<open>propertiesBinding\<close> by its parts, and a subscription that has not
  ended.\<close>

definition pathSlot :: "formProperty \<Rightarrow> jsval list \<Rightarrow> bool option \<Rightarrow> bool option \<Rightarrow> slot" where
  "pathSlot d allowed c vis =
     \<lparr>dependency = d, allowedValues = allowed, latestValueCheck = c, latestVisibility = vis\<rparr>"

definition live :: "checkKind \<Rightarrow> slot list \<Rightarrow> bool option \<Rightarrow> binding" where
  "live k sls prev = \<lparr>kind = k, slots = sls, previous = prev, stopped = False\<rparr>"

text \<open>What the subjects of a property hand to their subscribers: a value of
  \<^verbatim>\<open>valueChanges\<close>, or a value of \<^verbatim>\<open>_visibilityChanges\<close>.\<close>

datatype signal = ValueSignal jsval | VisibilitySignal bool

section \<open>State, notifications and the external collaborators\<close>

text \<open>
  The trace lists, in order, the calls of the methods that the properties below are about
  and the values handed to \<^verbatim>\<open>next\<close> of the three subjects.  The state also holds the
  subscriptions that \<^verbatim>\<open>_bindVisibility\<close> has made so far, in the order in which they were
  made, each with the property whose visibility it sets.
\<close>

datatype event =
    Call_updateValueAndValidity formProperty
  | Call_updateValue formProperty
  | ValueChangesNext formProperty jsval
  | Call_runValidation formProperty
  | ErrorsChangesNext formProperty "error_descriptor list option"
  | VisibilityChangesNext formProperty bool

record state =
  store :: heap
  trace :: "event list"
  subscriptions :: "(formProperty \<times> binding) list"

text \<open>What a custom validator returns: a falsy value, one error object, or an array of
  error objects (an error object is not itself an array).\<close>

datatype custom_result = CFalsy | CSingle error_descriptor | CList "error_descriptor list"

text \<open>
  The parts of the program that are not in \<^verbatim>\<open>formproperty.ts\<close>: the validator that
  \<^verbatim>\<open>SchemaValidatorFactory.createValidatorFn\<close> compiled for each property (\<open>None\<close> is a
  falsy result), \<^verbatim>\<open>ValidatorRegistry.get\<close>, and the abstract method \<^verbatim>\<open>_updateValue\<close>,
  which gives \<^verbatim>\<open>_value\<close> its new content from the objects as they are.

  \<open>subscribers\<close> is what \<^verbatim>\<open>next\<close> of the subjects \<^verbatim>\<open>valueChanges\<close> and
  \<^verbatim>\<open>_visibilityChanges\<close> of a property runs before it returns: all the subscribers of
  that subject, one after the other, with the value handed over.  \<^verbatim>\<open>formproperty.ts\<close>
  itself subscribes in \<^verbatim>\<open>_bindVisibility\<close> only (see \<open>notify\<close> and \<open>reactive\<close> below);
  \<^verbatim>\<open>valueChanges\<close> is public, so other subscribers may exist.
\<close>

record env =
  schemaValidator :: "formProperty \<Rightarrow> jsval \<Rightarrow> error_descriptor list option"
  validatorRegistry :: "string \<Rightarrow> (jsval \<Rightarrow> formProperty \<Rightarrow> formProperty \<Rightarrow> heap \<Rightarrow> custom_result) option"
  updateValue :: "formProperty \<Rightarrow> heap \<Rightarrow> jsval"
  subscribers :: "formProperty \<Rightarrow> signal \<Rightarrow> state \<Rightarrow> state"

definition emit :: "event \<Rightarrow> state \<Rightarrow> state" where
  "emit e s = s\<lparr>trace := trace s @ [e]\<rparr>"

definition modify :: "formProperty \<Rightarrow> (pstate \<Rightarrow> pstate) \<Rightarrow> state \<Rightarrow> state" where
  "modify this f s = s\<lparr>store := (store s)(this := f (store s this))\<rparr>"

text \<open>
  \<^verbatim>\<open>next\<close> of \<^verbatim>\<open>valueChanges\<close> or \<^verbatim>\<open>_visibilityChanges\<close> of the property \<open>d\<close>, after the
  subject has taken the value: the subscribers run, inside the call, on the state as it is;
  the events they cause follow the events recorded so far.
\<close>

definition notifySubscribers :: "env \<Rightarrow> formProperty \<Rightarrow> signal \<Rightarrow> state \<Rightarrow> state" where
  "notifySubscribers env d sg s =
     (let s' = subscribers env d sg (s\<lparr>trace := []\<rparr>) in s'\<lparr>trace := trace s @ trace s'\<rparr>)"

text \<open>The getter \<^verbatim>\<open>valid\<close>, lines 68-70.\<close>

definition valid :: "heap \<Rightarrow> formProperty \<Rightarrow> bool" where
  "valid h this = (priv_errors (h this) = None)"

section \<open>Validation\<close>

text \<open>\<^verbatim>\<open>mergeErrors\<close>, lines 119-128.\<close>

fun mergeErrors :: "error_descriptor list \<Rightarrow> custom_result \<Rightarrow> error_descriptor list" where
  "mergeErrors errors CFalsy = errors"
| "mergeErrors errors (CList newErrors) = errors @ newErrors"
| "mergeErrors errors (CSingle newErrors) = errors @ [newErrors]"

text \<open>\<^verbatim>\<open>setErrors\<close>, lines 130-133.\<close>

definition setErrors :: "formProperty \<Rightarrow> error_descriptor list option \<Rightarrow> state \<Rightarrow> state" where
  "setErrors this errors s =
     emit (ErrorsChangesNext this errors) (modify this (\<lambda>ob. ob\<lparr>priv_errors := errors\<rparr>) s)"

text \<open>\<^verbatim>\<open>_runValidation\<close>, lines 104-117.\<close>

definition runValidation :: "env \<Rightarrow> formProperty \<Rightarrow> state \<Rightarrow> state" where
  "runValidation env this s0 =
     (let s = emit (Call_runValidation this) s0;
          errors = (case schemaValidator env this (priv_value (store s this)) of
                      None \<Rightarrow> [] | Some es \<Rightarrow> es);
          errors = (case validatorRegistry env (path this) of
                      None \<Rightarrow> errors
                    | Some customValidator \<Rightarrow>
                        mergeErrors errors
                          (customValidator (priv_value (store s this)) this (findRoot this) (store s)));
          errors = (if length errors = 0 then None else Some errors)
      in setErrors this errors (modify this (\<lambda>ob. ob\<lparr>priv_errors := errors\<rparr>) s))"

text \<open>What \<^verbatim>\<open>_runValidation\<close> stores and emits, as one expression (a name for the
  statements about it).\<close>

definition validationResult :: "env \<Rightarrow> formProperty \<Rightarrow> heap \<Rightarrow> error_descriptor list option" where
  "validationResult env this h =
     (let base = (case schemaValidator env this (priv_value (h this)) of None \<Rightarrow> [] | Some es \<Rightarrow> es);
          merged = (case validatorRegistry env (path this) of None \<Rightarrow> base
                    | Some cv \<Rightarrow> mergeErrors base (cv (priv_value (h this)) this (findRoot this) h))
      in if merged = [] then None else Some merged)"

text \<open>\<^verbatim>\<open>extendErrors\<close>, lines 135-138.\<close>

definition extendErrors :: "formProperty \<Rightarrow> custom_result \<Rightarrow> state \<Rightarrow> state" where
  "extendErrors this errors s =
     setErrors this
       (Some (mergeErrors (case priv_errors (store s this) of None \<Rightarrow> [] | Some es \<Rightarrow> es) errors)) s"

section \<open>Propagation of value and validity\<close>

text \<open>
  Lines 77-83 of \<^verbatim>\<open>updateValueAndValidity\<close>: what one call does to its own object.
  \<^verbatim>\<open>valueChanges.next\<close> (line 80) stores the value in the subject and runs the subscribers
  before \<^verbatim>\<open>_runValidation\<close> starts.
\<close>

definition updateOwn :: "env \<Rightarrow> formProperty \<Rightarrow> bool \<Rightarrow> state \<Rightarrow> state" where
  "updateOwn env this emitEvent s0 =
     (let s1 = emit (Call_updateValue this) (emit (Call_updateValueAndValidity this) s0);
          s2 = modify this (\<lambda>ob. ob\<lparr>priv_value := updateValue env this (store s1)\<rparr>) s1;
          s3 = (if emitEvent
                then notifySubscribers env this (ValueSignal (priv_value (store s2 this)))
                       (emit (ValueChangesNext this (priv_value (store s2 this)))
                          (modify this (\<lambda>ob. ob\<lparr>valueChanges := priv_value (store s2 this)\<rparr>) s2))
                else s2)
      in runValidation env this s3)"

text \<open>\<^verbatim>\<open>updateValueAndValidity\<close>, lines 76-89.\<close>

fun updateValueAndValidity :: "env \<Rightarrow> formProperty \<Rightarrow> bool \<Rightarrow> bool \<Rightarrow> state \<Rightarrow> state" where
  "updateValueAndValidity env (FormProperty g p None) onlySelf emitEvent s =
     updateOwn env (FormProperty g p None) emitEvent s"
| "updateValueAndValidity env (FormProperty g p (Some par)) onlySelf emitEvent s =
     (let s' = updateOwn env (FormProperty g p (Some par)) emitEvent s
      in if \<not> onlySelf then updateValueAndValidity env par onlySelf emitEvent s' else s')"

text \<open>\<^verbatim>\<open>setVisible\<close>, lines 165-172.  \<^verbatim>\<open>_visibilityChanges.next\<close> (line 167) runs the
  subscribers before line 168 starts.\<close>

definition setVisible :: "env \<Rightarrow> formProperty \<Rightarrow> bool \<Rightarrow> state \<Rightarrow> state" where
  "setVisible env this visible s0 =
     (let s1 = notifySubscribers env this (VisibilitySignal visible)
                 (emit (VisibilityChangesNext this visible)
                    (modify this (\<lambda>ob. ob\<lparr>priv_visible := visible\<rparr>) s0));
          s2 = updateValueAndValidity env this False True s1
      in case parent this of
           None \<Rightarrow> s2
         | Some par \<Rightarrow> updateValueAndValidity env par False True s2)"

text \<open>Modelled from the spec: the setter of a leaf, which is not in \<^verbatim>\<open>formproperty.ts\<close>
  (\<^verbatim>\<open>setValue\<close> is abstract there).  The spec: a leaf assigns the value directly, and the
  setter calls \<^verbatim>\<open>updateValueAndValidity\<close> itself.\<close>

definition setValue :: "env \<Rightarrow> formProperty \<Rightarrow> jsval \<Rightarrow> bool \<Rightarrow> state \<Rightarrow> state" where
  "setValue env this v onlySelf s =
     updateValueAndValidity env this onlySelf True (modify this (\<lambda>ob. ob\<lparr>priv_value := v\<rparr>) s)"

text \<open>The chain of parents of an object, nearest first.\<close>

fun ancestors :: "formProperty \<Rightarrow> formProperty list" where
  "ancestors (FormProperty g p None) = []"
| "ancestors (FormProperty g p (Some par)) = par # ancestors par"

text \<open>The objects on which \<^verbatim>\<open>updateValueAndValidity\<close> was entered, on which a value was
  emitted and on which errors were emitted, in the order of a trace.\<close>

fun calls :: "event list \<Rightarrow> formProperty list" where
  "calls [] = []"
| "calls (Call_updateValueAndValidity p # es) = p # calls es"
| "calls (e # es) = calls es"

fun valueEmissions :: "event list \<Rightarrow> formProperty list" where
  "valueEmissions [] = []"
| "valueEmissions (ValueChangesNext p v # es) = p # valueEmissions es"
| "valueEmissions (e # es) = valueEmissions es"

fun errorsEmissions :: "event list \<Rightarrow> formProperty list" where
  "errorsEmissions [] = []"
| "errorsEmissions (ErrorsChangesNext p v # es) = p # errorsEmissions es"
| "errorsEmissions (e # es) = errorsEmissions es"

text \<open>The booleans handed to \<^verbatim>\<open>_visibilityChanges.next\<close> of a property, in the order of a
  trace.\<close>

fun visibilityEmissions :: "formProperty \<Rightarrow> event list \<Rightarrow> bool list" where
  "visibilityEmissions p [] = []"
| "visibilityEmissions p (VisibilityChangesNext q v # es) =
     (if q = p then v # visibilityEmissions p es else visibilityEmissions p es)"
| "visibilityEmissions p (e # es) = visibilityEmissions p es"

text \<open>\<open>before a b tr\<close>: the event \<open>a\<close> occurs in \<open>tr\<close>, and \<open>b\<close> occurs after its first
  occurrence.\<close>

fun before :: "event \<Rightarrow> event \<Rightarrow> event list \<Rightarrow> bool" where
  "before a b [] = False"
| "before a b (e # es) = (if e = a then b \<in> set es else before a b es)"

text \<open>
  Subscribers that leave the state as it is (a form without bindings and without other
  subscribers), and subscribers whose reaction does not enter \<^verbatim>\<open>updateValueAndValidity\<close>
  (for a subscription of the visibility binder: the value it receives does not change the
  visibility it has computed).
\<close>

definition noSubscribers :: "env \<Rightarrow> bool" where
  "noSubscribers env = (\<forall>d sg t. subscribers env d sg t = t)"

definition noReentry :: "env \<Rightarrow> bool" where
  "noReentry env = (\<forall>d sg t. calls (trace (subscribers env d sg (t\<lparr>trace := []\<rparr>))) = [])"

text \<open>
  Modelled from the spec: "recomputes and re-emits value and errors" of one object, as one
  step.  The value is the one \<^verbatim>\<open>_updateValue\<close> computes, it is stored and handed to
  \<^verbatim>\<open>valueChanges\<close>; the errors are those of the validators for that value, stored and
  handed to \<^verbatim>\<open>_errorsChanges\<close>.
\<close>

definition reemit :: "env \<Rightarrow> formProperty \<Rightarrow> state \<Rightarrow> state" where
  "reemit env q s =
     (let v = updateValue env q (store s);
          h = (store s)(q := (store s q)\<lparr>priv_value := v, valueChanges := v\<rparr>);
          e = validationResult env q h
      in s\<lparr>store := h(q := (h q)\<lparr>priv_errors := e\<rparr>),
           trace := trace s @ [Call_updateValueAndValidity q, Call_updateValue q, ValueChangesNext q v,
                               Call_runValidation q, ErrorsChangesNext q e]\<rparr>)"

section \<open>Binding of visibility\<close>

text \<open>The inner loop of \<^verbatim>\<open>_chk\<close>, lines 217-229, over the paths of one item of
  \<^verbatim>\<open>allOf\<close>: \<open>Inr True\<close> when the loop ends without \<^verbatim>\<open>return false\<close>.\<close>

fun chkItem :: "heap \<Rightarrow> formProperty \<Rightarrow> branch \<Rightarrow> exn + bool" where
  "chkItem h this [] = Inr True"
| "chkItem h this ((depPath, allowed) # rest) =
     (case searchProperty h this depPath of
        Inl e \<Rightarrow> Inl e
      | Inr (Obj prop) \<Rightarrow>
          (let propVal = priv_value (h prop) in
           case (if indexOf allowed (VStr ''$ANY$'') \<noteq> - 1 then length_gt_0 propVal
                 else Inr (indexOf allowed propVal \<noteq> - 1)) of
             Inl e \<Rightarrow> Inl e
           | Inr valid' \<Rightarrow> if \<not> valid' then Inr False else chkItem h this rest)
      | Inr _ \<Rightarrow> Inl TypeError)"

text \<open>\<^verbatim>\<open>_chk\<close>, lines 215-232.  It does not read the value it is given.\<close>

fun chk :: "heap \<Rightarrow> formProperty \<Rightarrow> branch list \<Rightarrow> exn + bool" where
  "chk h this [] = Inr True"
| "chk h this (item # items) =
     (case chkItem h this item of
        Inl e \<Rightarrow> Inl e
      | Inr ok \<Rightarrow> if \<not> ok then Inr False else chk h this items)"

declare chk.simps [simp del] chkItem.simps [simp del]

definition slotResult :: "slot \<Rightarrow> bool option" where
  "slotResult sl =
     (case latestValueCheck sl of
        None \<Rightarrow> None
      | Some v1 \<Rightarrow> (case latestVisibility sl of None \<Rightarrow> None | Some v2 \<Rightarrow> Some (v1 \<and> v2)))"

fun combineAll :: "bool option list \<Rightarrow> bool list option" where
  "combineAll [] = Some []"
| "combineAll (None # xs) = None"
| "combineAll (Some v # xs) = map_option ((#) v) (combineAll xs)"

text \<open>The outer \<^verbatim>\<open>combineLatest\<close> with \<^verbatim>\<open>values.indexOf(true) !== -1\<close>: nothing before every
  stream of \<^verbatim>\<open>propertiesBinding\<close> has emitted.\<close>

definition expression :: "slot list \<Rightarrow> bool option" where
  "expression sls = map_option (\<lambda>values. True \<in> set values) (combineAll (map slotResult sls))"

text \<open>The subscription \<open>k\<close> of a state: the property whose visibility it sets, what it
  holds, and the assignment of what it holds.\<close>

definition owner :: "state \<Rightarrow> nat \<Rightarrow> formProperty" where
  "owner s k = fst (subscriptions s ! k)"

definition bindingAt :: "state \<Rightarrow> nat \<Rightarrow> binding" where
  "bindingAt s k = snd (subscriptions s ! k)"

definition setBinding :: "nat \<Rightarrow> binding \<Rightarrow> state \<Rightarrow> state" where
  "setBinding k b s = s\<lparr>subscriptions := (subscriptions s)[k := (owner s k, b)]\<rparr>"

text \<open>A value of the outer \<^verbatim>\<open>combineLatest\<close> of the subscription \<open>k\<close> passes
  \<^verbatim>\<open>distinctUntilChanged\<close>, which keeps it, and reaches the subscriber, which calls
  \<^verbatim>\<open>setVisible\<close>.\<close>

definition recompute :: "env \<Rightarrow> nat \<Rightarrow> state \<Rightarrow> state" where
  "recompute env k s =
     (let b = bindingAt s k in
      case expression (slots b) of
        None \<Rightarrow> s
      | Some visible \<Rightarrow>
          if previous b = Some visible then s
          else setVisible env (owner s k) visible (setBinding k (b\<lparr>previous := Some visible\<rparr>) s))"

text \<open>The stream \<open>i\<close> of the subscription \<open>k\<close> receives a signal of its dependency.\<close>

definition receive :: "env \<Rightarrow> nat \<Rightarrow> nat \<Rightarrow> signal \<Rightarrow> state \<Rightarrow> state" where
  "receive env k i sg s =
     (let b = bindingAt s k in
      if stopped b then s
      else (case sg of
              VisibilitySignal v2 \<Rightarrow>
                recompute env k
                  (setBinding k (b\<lparr>slots := (slots b)[i := (slots b ! i)\<lparr>latestVisibility := Some v2\<rparr>]\<rparr>) s)
            | ValueSignal v \<Rightarrow>
                (case (case kind b of
                         ValueCheck \<Rightarrow> valueCheck (allowedValues (slots b ! i)) v
                       | AllOfCheck allOf \<Rightarrow> chk (store s) (owner s k) allOf) of
                   Inl e \<Rightarrow> setBinding k (b\<lparr>stopped := True\<rparr>) s
                 | Inr v1 \<Rightarrow>
                     recompute env k
                       (setBinding k
                          (b\<lparr>slots := (slots b)[i := (slots b ! i)\<lparr>latestValueCheck := Some v1\<rparr>]\<rparr>) s))))"

text \<open>A subject of the property \<open>d\<close> calls \<^verbatim>\<open>next\<close>: every stream of the subscription \<open>k\<close>
  that depends on \<open>d\<close> receives the signal, in the order of \<^verbatim>\<open>propertiesBinding\<close>.\<close>

definition deliver :: "env \<Rightarrow> nat \<Rightarrow> formProperty \<Rightarrow> signal \<Rightarrow> state \<Rightarrow> state" where
  "deliver env k d sg s =
     fold (\<lambda>i t. if dependency (slots (bindingAt t k) ! i) = d then receive env k i sg t else t)
       [0..<length (slots (bindingAt s k))] s"

text \<open>
  The subscribers that \<^verbatim>\<open>formproperty.ts\<close> itself gives to the subjects of \<open>d\<close>: the streams
  of the subscriptions made so far, in the order in which they subscribed.  A reaction (a
  call of \<^verbatim>\<open>setVisible\<close>) runs with the subscribers of \<open>env\<close>.
\<close>

definition notify :: "env \<Rightarrow> formProperty \<Rightarrow> signal \<Rightarrow> state \<Rightarrow> state" where
  "notify env d sg s = fold (\<lambda>k. deliver env k d sg) [0..<length (subscriptions s)] s"

text \<open>
  The program in which the subscriptions of \<^verbatim>\<open>_bindVisibility\<close> are the subscribers of the
  subjects; their calls of \<^verbatim>\<open>setVisible\<close> notify the subscribers of \<open>env\<close> (for a form in
  which the dependents of a property have dependents of their own, \<open>reactive\<close> is applied
  again).
\<close>

definition reactive :: "env \<Rightarrow> env" where
  "reactive env = env\<lparr>subscribers := notify env\<rparr>"

text \<open>Subscribing to the stream \<open>i\<close> of the subscription \<open>k\<close>: each of the two subjects of
  the dependency hands over the value it holds, \<^verbatim>\<open>valueChanges\<close> first.\<close>

definition subscribeSlot :: "env \<Rightarrow> nat \<Rightarrow> nat \<Rightarrow> state \<Rightarrow> state" where
  "subscribeSlot env k i s =
     (let d = dependency (slots (bindingAt s k) ! i);
          s1 = receive env k i (ValueSignal (valueChanges (store s d))) s
      in receive env k i (VisibilitySignal (priv_visible (store s1 d))) s1)"

definition subscribe :: "env \<Rightarrow> nat \<Rightarrow> state \<Rightarrow> state" where
  "subscribe env k s = fold (subscribeSlot env k) [0..<length (slots (bindingAt s k))] s"

text \<open>The loop over the paths of one branch, lines 199-242 (and 265-285): a path that
  \<^verbatim>\<open>searchProperty\<close> does not resolve is left out.\<close>

fun resolve :: "heap \<Rightarrow> formProperty \<Rightarrow> branch \<Rightarrow> exn + slot list" where
  "resolve h this [] = Inr []"
| "resolve h this ((dependencyPath, allowed) # rest) =
     (case searchProperty h this dependencyPath of
        Inl e \<Rightarrow> Inl e
      | Inr (Obj property) \<Rightarrow>
          (case resolve h this rest of
             Inl e \<Rightarrow> Inl e
           | Inr sls \<Rightarrow>
               Inr (pathSlot property allowed None None # sls))
      | Inr _ \<Rightarrow> resolve h this rest)"

text \<open>
  The loop over the branches, lines 194-250: each branch that is not empty makes one
  subscription of its own.  The result holds the error that ended the loop (if one did)
  and the state.  Lines 260-292 of \<^verbatim>\<open>_bindVisibility\<close> repeat the body of this loop for the
  flat branch, with the check of lines 270-276.
\<close>

fun bindBranches :: "env \<Rightarrow> formProperty \<Rightarrow> checkKind \<Rightarrow> branch list \<Rightarrow> state \<Rightarrow> exn option \<times> state" where
  "bindBranches env this ck [] s = (None, s)"
| "bindBranches env this ck (visibleIf # rest) s =
     (if visibleIf = [] then bindBranches env this ck rest (setVisible env this False s)
      else (case resolve (store s) this visibleIf of
              Inl e \<Rightarrow> (Some e, s)
            | Inr propertiesBinding \<Rightarrow>
                bindBranches env this ck rest
                  (subscribe env (length (subscriptions s))
                     (s\<lparr>subscriptions := subscriptions s @ [(this, live ck propertiesBinding None)]\<rparr>))))"

text \<open>\<^verbatim>\<open>__bindVisibility\<close> and \<^verbatim>\<open>FormProperty._bindVisibility\<close>, lines 174-293.\<close>

definition bindVisibility :: "env \<Rightarrow> formProperty \<Rightarrow> visibleIf \<Rightarrow> state \<Rightarrow> exn option \<times> state" where
  "bindVisibility env this vi s =
     (case vi of
        OneOf visibleIfOf \<Rightarrow> bindBranches env this ValueCheck visibleIfOf s
      | AllOf visibleIfOf \<Rightarrow> bindBranches env this (AllOfCheck visibleIfOf) visibleIfOf s
      | NoVisibleIf \<Rightarrow> (None, s)
      | Flat visibleIf \<Rightarrow> bindBranches env this ValueCheck [visibleIf] s)"

text \<open>No stream of a subscription depends on the property \<open>d\<close>.\<close>

definition unobserved :: "state \<Rightarrow> formProperty \<Rightarrow> bool" where
  "unobserved s d = (\<forall>tb \<in> set (subscriptions s). \<forall>sl \<in> set (slots (snd tb)). dependency sl \<noteq> d)"

section \<open>Concrete forms\<close>

text \<open>The fields of an object as its initialisers leave them, lines 10-15 and 298.\<close>

definition init_pstate :: pstate where
  "init_pstate =
     \<lparr>priv_value = VNull, priv_errors = None, priv_visible = True, valueChanges = VNull,
      properties = None\<rparr>"

text \<open>A form with the properties \<^verbatim>\<open>group1/group2/leaf\<close> and \<^verbatim>\<open>group1/sibling\<close>.\<close>

definition ex_root :: formProperty where
  "ex_root = FormProperty True ''/'' None"

definition ex_group1 :: formProperty where
  "ex_group1 = FormProperty True ''/group1'' (Some ex_root)"

definition ex_group2 :: formProperty where
  "ex_group2 = FormProperty True ''/group1/group2'' (Some ex_group1)"

definition ex_leaf :: formProperty where
  "ex_leaf = FormProperty False ''/group1/group2/leaf'' (Some ex_group2)"

definition ex_sibling :: formProperty where
  "ex_sibling = FormProperty False ''/group1/sibling'' (Some ex_group1)"

definition ex_heap :: heap where
  "ex_heap p =
     (if p = ex_root then init_pstate\<lparr>properties := Some [(''group1'', Obj ex_group1)]\<rparr>
      else if p = ex_group1
        then init_pstate\<lparr>properties := Some [(''group2'', Obj ex_group2), (''sibling'', Obj ex_sibling)]\<rparr>
      else if p = ex_group2 then init_pstate\<lparr>properties := Some [(''leaf'', Obj ex_leaf)]\<rparr>
      else init_pstate)"

definition ex_state :: state where
  "ex_state = \<lparr>store = ex_heap, trace = [], subscriptions = []\<rparr>"

text \<open>No schema error, no custom validator, \<^verbatim>\<open>_updateValue\<close> of a leaf (it leaves
  \<^verbatim>\<open>_value\<close> as it is), and no subscriber.\<close>

definition plain_env :: env where
  "plain_env =
     \<lparr>schemaValidator = (\<lambda>p v. None), validatorRegistry = (\<lambda>pth. None),
      updateValue = (\<lambda>p h. priv_value (h p)), subscribers = (\<lambda>d sg s. s)\<rparr>"

text \<open>The schema validator answers \<^verbatim>\<open>[{code: "required"}]\<close>, and the validator registered
  for the path of \<open>ex_leaf\<close> answers the object \<^verbatim>\<open>{code: "custom"}\<close>.\<close>

definition strict_env :: env where
  "strict_env =
     \<lparr>schemaValidator = (\<lambda>p v. Some [ErrorDescriptor ''required'']),
      validatorRegistry =
        (\<lambda>pth. if pth = ''/group1/group2/leaf''
                then Some (\<lambda>v p r h. CSingle (ErrorDescriptor ''custom'')) else None),
      updateValue = (\<lambda>p h. priv_value (h p)), subscribers = (\<lambda>d sg s. s)\<rparr>"

text \<open>A form with the leaves \<^verbatim>\<open>a\<close>, \<^verbatim>\<open>b\<close> and \<^verbatim>\<open>c\<close> under its root; \<open>form_heap\<close> gives
  \<^verbatim>\<open>a\<close> and \<^verbatim>\<open>b\<close> a value (emitted on their value streams) and a visibility.  No
  subscription has been made.\<close>

definition form_root :: formProperty where
  "form_root = FormProperty True ''/'' None"

definition form_a :: formProperty where
  "form_a = FormProperty False ''/a'' (Some form_root)"

definition form_b :: formProperty where
  "form_b = FormProperty False ''/b'' (Some form_root)"

definition form_c :: formProperty where
  "form_c = FormProperty False ''/c'' (Some form_root)"

definition form_heap :: "jsval \<Rightarrow> bool \<Rightarrow> jsval \<Rightarrow> bool \<Rightarrow> heap" where
  "form_heap va visible_a vb visible_b p =
     (if p = form_root
        then init_pstate\<lparr>properties := Some [(''a'', Obj form_a), (''b'', Obj form_b), (''c'', Obj form_c)]\<rparr>
      else if p = form_a
        then init_pstate\<lparr>priv_value := va, valueChanges := va, priv_visible := visible_a\<rparr>
      else if p = form_b
        then init_pstate\<lparr>priv_value := vb, valueChanges := vb, priv_visible := visible_b\<rparr>
      else init_pstate)"

definition form_state :: "jsval \<Rightarrow> bool \<Rightarrow> jsval \<Rightarrow> bool \<Rightarrow> state" where
  "form_state va visible_a vb visible_b =
     \<lparr>store = form_heap va visible_a vb visible_b, trace = [], subscriptions = []\<rparr>"

text \<open>The program of this form: no validator, and the subscriptions of \<^verbatim>\<open>_bindVisibility\<close>
  as the only subscribers.\<close>

definition form_env :: env where
  "form_env = reactive plain_env"

definition oneOf_a_b :: visibleIf where
  "oneOf_a_b = OneOf [[(''a'', [VStr ''x''])], [(''b'', [VStr ''y''])]]"

definition allOf_a_b :: visibleIf where
  "allOf_a_b = AllOf [[(''a'', [VStr ''x'']), (''b'', [VStr ''y''])]]"

definition flat_a :: visibleIf where
  "flat_a = Flat [(''a'', [VStr ''x''])]"

definition flat_b :: visibleIf where
  "flat_b = Flat [(''b'', [VStr ''y''])]"

section \<open>Basic facts\<close>

subsection \<open>Values, traces and validation\<close>

lemma indexOf_ge: "- 1 \<le> indexOf xs v"
  by (induction xs) (auto simp: Let_def)

lemma indexOf_found: "(indexOf xs v \<noteq> - 1) = (\<exists>x \<in> set xs. strict_eq x v)"
proof (induction xs)
  case Nil
  show ?case by simp
next
  case (Cons x xs)
  have "indexOf xs v + 1 \<noteq> - 1" using indexOf_ge [of xs v] by arith
  with Cons show ?case by (auto simp: Let_def)
qed

lemma strict_eq_VStr: "strict_eq x (VStr s) = (x = VStr s)"
  by (cases x) auto

lemma trace_emit [simp]: "trace (emit e s) = trace s @ [e]"
  and store_emit [simp]: "store (emit e s) = store s"
  and subscriptions_emit [simp]: "subscriptions (emit e s) = subscriptions s"
  by (simp_all add: emit_def)

lemma trace_modify [simp]: "trace (modify p f s) = trace s"
  and store_modify [simp]: "store (modify p f s) = (store s)(p := f (store s p))"
  and subscriptions_modify [simp]: "subscriptions (modify p f s) = subscriptions s"
  by (simp_all add: modify_def)

lemma trace_setErrors [simp]: "trace (setErrors p e s) = trace s @ [ErrorsChangesNext p e]"
  and store_setErrors [simp]: "store (setErrors p e s) = (store s)(p := (store s p)\<lparr>priv_errors := e\<rparr>)"
  and subscriptions_setErrors [simp]: "subscriptions (setErrors p e s) = subscriptions s"
  by (simp_all add: setErrors_def)

lemma trace_runValidation:
  "trace (runValidation env p s) = trace s @ [Call_runValidation p, ErrorsChangesNext p (validationResult env p (store s))]"
  by (simp add: runValidation_def validationResult_def Let_def split: option.splits)

lemma store_runValidation:
  "store (runValidation env p s) = (store s)(p := (store s p)\<lparr>priv_errors := validationResult env p (store s)\<rparr>)"
  by (simp add: runValidation_def validationResult_def Let_def split: option.splits)

lemma subscriptions_runValidation: "subscriptions (runValidation env p s) = subscriptions s"
  by (simp add: runValidation_def Let_def)

lemma calls_append [simp]: "calls (xs @ ys) = calls xs @ calls ys"
  by (induction xs rule: calls.induct) auto

lemma valueEmissions_append [simp]: "valueEmissions (xs @ ys) = valueEmissions xs @ valueEmissions ys"
  by (induction xs rule: valueEmissions.induct) auto

lemma errorsEmissions_append [simp]: "errorsEmissions (xs @ ys) = errorsEmissions xs @ errorsEmissions ys"
  by (induction xs rule: errorsEmissions.induct) auto

lemma visibilityEmissions_append [simp]:
  "visibilityEmissions p (xs @ ys) = visibilityEmissions p xs @ visibilityEmissions p ys"
  by (induction p xs rule: visibilityEmissions.induct) auto

lemma calls_runValidation [simp]: "calls (trace (runValidation env p s)) = calls (trace s)"
  by (simp add: trace_runValidation)

lemma state_eqI:
  "store s = store t \<Longrightarrow> trace s = trace t \<Longrightarrow> subscriptions s = subscriptions t \<Longrightarrow> (s :: state) = t"
  by simp

subsection \<open>Notifications\<close>

lemma notifySubscribers_none: "noSubscribers env \<Longrightarrow> notifySubscribers env d sg s = s"
  by (simp add: notifySubscribers_def noSubscribers_def)

lemma noSubscribers_noReentry: "noSubscribers env \<Longrightarrow> noReentry env"
  by (simp add: noSubscribers_def noReentry_def)

lemma trace_notifySubscribers:
  "\<exists>X. trace (notifySubscribers env d sg s) = trace s @ X
     \<and> (noReentry env \<longrightarrow> calls X = []) \<and> (noSubscribers env \<longrightarrow> X = [])"
  by (auto simp: notifySubscribers_def Let_def noReentry_def noSubscribers_def)

lemma calls_notifySubscribers:
  "calls (trace (notifySubscribers env d sg s)) =
     calls (trace s) @ calls (trace (subscribers env d sg (s\<lparr>trace := []\<rparr>)))"
  by (simp add: notifySubscribers_def Let_def)

lemma store_notifySubscribers:
  "store (notifySubscribers env d sg s) = store (subscribers env d sg (s\<lparr>trace := []\<rparr>))"
  by (simp add: notifySubscribers_def Let_def)

lemma subscriptions_notifySubscribers:
  "subscriptions (notifySubscribers env d sg s) = subscriptions (subscribers env d sg (s\<lparr>trace := []\<rparr>))"
  by (simp add: notifySubscribers_def Let_def)

subsection \<open>Calls of the propagation\<close>

lemma updateOwn_steps:
  "updateOwn env p True s =
     runValidation env p
       (notifySubscribers env p (ValueSignal (updateValue env p (store s)))
          (emit (ValueChangesNext p (updateValue env p (store s)))
             (modify p (\<lambda>ob. ob\<lparr>valueChanges := updateValue env p (store s)\<rparr>)
                (modify p (\<lambda>ob. ob\<lparr>priv_value := updateValue env p (store s)\<rparr>)
                   (emit (Call_updateValue p) (emit (Call_updateValueAndValidity p) s))))))"
  by (simp add: updateOwn_def Let_def)

lemma trace_updateOwn:
  "\<exists>X. trace (updateOwn env p True s) = trace s @ [Call_updateValueAndValidity p, Call_updateValue p,
       ValueChangesNext p (updateValue env p (store s))] @ X @ [Call_runValidation p,
       ErrorsChangesNext p (priv_errors (store (updateOwn env p True s) p))]
     \<and> (noReentry env \<longrightarrow> calls X = []) \<and> (noSubscribers env \<longrightarrow> X = [])"
proof -
  let ?v = "updateValue env p (store s)"
  let ?m = "emit (ValueChangesNext p ?v) (modify p (\<lambda>ob. ob\<lparr>valueChanges := ?v\<rparr>)
      (modify p (\<lambda>ob. ob\<lparr>priv_value := ?v\<rparr>)
         (emit (Call_updateValue p) (emit (Call_updateValueAndValidity p) s))))"
  obtain X where X: "trace (notifySubscribers env p (ValueSignal ?v) ?m) = trace ?m @ X"
      "noReentry env \<longrightarrow> calls X = []" "noSubscribers env \<longrightarrow> X = []"
    using trace_notifySubscribers [of env p "ValueSignal ?v" ?m] by blast
  have "updateOwn env p True s = runValidation env p (notifySubscribers env p (ValueSignal ?v) ?m)"
    by (simp add: updateOwn_def Let_def)
  then show ?thesis using X
    by (simp add: trace_runValidation store_runValidation)
qed

lemma trace_updateOwn_quiet:
  "trace (updateOwn env p False s) = trace s @ [Call_updateValueAndValidity p, Call_updateValue p,
       Call_runValidation p, ErrorsChangesNext p (priv_errors (store (updateOwn env p False s) p))]"
  by (simp add: updateOwn_def Let_def trace_runValidation store_runValidation)

lemma trace_updateOwn_extends:
  "\<exists>X. trace (updateOwn env p ee s) = trace s @ Call_updateValueAndValidity p # X
     \<and> (noReentry env \<longrightarrow> calls X = [])"
proof (cases ee)
  case True
  obtain X where "trace (updateOwn env p True s) = trace s @ [Call_updateValueAndValidity p, Call_updateValue p,
       ValueChangesNext p (updateValue env p (store s))] @ X @ [Call_runValidation p,
       ErrorsChangesNext p (priv_errors (store (updateOwn env p True s) p))]"
     "noReentry env \<longrightarrow> calls X = []"
    using trace_updateOwn [of env p s] by blast
  then show ?thesis using True by simp
next
  case False
  then show ?thesis using trace_updateOwn_quiet [of env p s] by simp
qed

lemma calls_updateOwn: "noReentry env \<Longrightarrow> calls (trace (updateOwn env p ee s)) = calls (trace s) @ [p]"
  using trace_updateOwn_extends [of env p ee s] by auto

lemma uvv_unfold:
  "updateValueAndValidity env this os ee s =
     (case parent this of
        None \<Rightarrow> updateOwn env this ee s
      | Some par \<Rightarrow> if os then updateOwn env this ee s
                    else updateValueAndValidity env par os ee (updateOwn env this ee s))"
  by (cases this rule: ancestors.cases) (simp_all add: Let_def)

lemma uvv_leaf:
  "parent p = Some r \<Longrightarrow> parent r = None \<Longrightarrow>
   updateValueAndValidity env p False ee s = updateOwn env r ee (updateOwn env p ee s)"
  by (simp add: uvv_unfold)

lemma uvv_root: "parent p = None \<Longrightarrow> updateValueAndValidity env p os ee s = updateOwn env p ee s"
  by (simp add: uvv_unfold)

lemma calls_uvv:
  "noReentry env \<Longrightarrow>
   calls (trace (updateValueAndValidity env p False ee s)) = calls (trace s) @ p # ancestors p"
  by (induction p arbitrary: s rule: ancestors.induct) (simp_all add: calls_updateOwn Let_def)

lemma trace_uvv_subseq:
  "\<exists>new. trace (updateValueAndValidity env p False ee s) = trace s @ new
     \<and> subseq (p # ancestors p) (calls new)"
proof (induction p arbitrary: s rule: ancestors.induct)
  case (1 g p)
  obtain X where "trace (updateOwn env (FormProperty g p None) ee s) =
      trace s @ Call_updateValueAndValidity (FormProperty g p None) # X"
    using trace_updateOwn_extends by blast
  then show ?case by simp
next
  case (2 g p par)
  let ?t = "FormProperty g p (Some par)"
  obtain X where X: "trace (updateOwn env ?t ee s) = trace s @ Call_updateValueAndValidity ?t # X"
    using trace_updateOwn_extends by blast
  obtain new where new: "trace (updateValueAndValidity env par False ee (updateOwn env ?t ee s))
      = trace (updateOwn env ?t ee s) @ new" "subseq (par # ancestors par) (calls new)"
    using 2 by blast
  have "subseq (par # ancestors par) (calls X @ calls new)"
    using new(2) by (rule list_emb_append2)
  then show ?case using X new by (simp add: Let_def)
qed

lemma trace_uvv_extends:
  "\<exists>rest. trace (updateValueAndValidity env p os ee s) = trace s @ rest"
proof (induction p arbitrary: s rule: ancestors.induct)
  case (1 g p)
  show ?case using trace_updateOwn_extends [of env _ ee s] by auto
next
  case (2 g p par)
  obtain r1 where r1: "trace (updateOwn env (FormProperty g p (Some par)) ee s) = trace s @ r1"
    using trace_updateOwn_extends [of env _ ee s] by blast
  show ?case
  proof (cases os)
    case True
    with r1 show ?thesis by (simp add: Let_def)
  next
    case False
    obtain r2 where "trace (updateValueAndValidity env par os ee (updateOwn env (FormProperty g p (Some par)) ee s))
        = trace (updateOwn env (FormProperty g p (Some par)) ee s) @ r2"
      using 2 by blast
    with r1 False show ?thesis by (simp add: Let_def)
  qed
qed

lemma ancestors_smaller: "q \<in> set (ancestors p) \<Longrightarrow> size q < size p"
  by (induction p rule: ancestors.induct) auto

lemma distinct_chain: "distinct (p # ancestors p)"
proof (induction p rule: ancestors.induct)
  case (1 g p)
  show ?case by simp
next
  case (2 g p par)
  have "size par < size (FormProperty g p (Some par))" by simp
  then have "FormProperty g p (Some par) \<noteq> par" by (metis less_irrefl)
  moreover have "FormProperty g p (Some par) \<notin> set (ancestors par)"
    using ancestors_smaller [of "FormProperty g p (Some par)" par] by auto
  ultimately have "FormProperty g p (Some par) \<notin> set (par # ancestors par)" by simp
  with 2 show ?case by simp
qed

lemma last_chain: "last (p # ancestors p) = findRoot p"
  by (induction p rule: ancestors.induct) auto

lemma not_own_ancestor: "p \<notin> set (ancestors p)"
  using distinct_chain [of p] by simp

lemma ancestors_parent:
  "parent this = Some par \<Longrightarrow> ancestors this = par # ancestors par"
  by (cases this rule: ancestors.cases) auto

lemma ancestors_root: "parent this = None \<Longrightarrow> ancestors this = []"
  by (cases this rule: ancestors.cases) auto

lemma count_distinct: "distinct xs \<Longrightarrow> x \<in> set xs \<Longrightarrow> count_list xs x = 1"
  by (induction xs) auto

lemma count_self: "count_list (this # ancestors this @ ancestors this) this = 1"
  using not_own_ancestor [of this] by simp

lemma count_ancestor:
  assumes "q \<in> set (ancestors this)"
  shows "count_list (this # ancestors this @ ancestors this) q = 2"
proof -
  have "distinct (ancestors this)" using distinct_chain [of this] by simp
  then have "count_list (ancestors this) q = 1" using assms by (rule count_distinct)
  moreover have "q \<noteq> this" using assms not_own_ancestor [of this] by auto
  ultimately show ?thesis by simp
qed

lemma calls_setVisible:
  assumes "noReentry env"
  shows "calls (trace (setVisible env this v s)) = calls (trace s) @ this # ancestors this @ ancestors this"
proof -
  let ?m = "emit (VisibilityChangesNext this v) (modify this (\<lambda>ob. ob\<lparr>priv_visible := v\<rparr>) s)"
  obtain X where "trace (notifySubscribers env this (VisibilitySignal v) ?m) = trace ?m @ X" "calls X = []"
    using trace_notifySubscribers assms by blast
  then have c: "calls (trace (notifySubscribers env this (VisibilitySignal v) ?m)) = calls (trace s)"
    by simp
  show ?thesis
  proof (cases "parent this")
    case None
    then show ?thesis
      using c by (simp add: setVisible_def Let_def calls_uvv [OF assms] ancestors_root)
  next
    case (Some par)
    then show ?thesis
      using c by (simp add: setVisible_def Let_def calls_uvv [OF assms] ancestors_parent)
  qed
qed

subsection \<open>The propagation without subscribers\<close>

lemma updateOwn_reemit: "noSubscribers env \<Longrightarrow> updateOwn env q True s = reemit env q s"
  by (rule state_eqI)
     (simp_all add: updateOwn_def reemit_def Let_def notifySubscribers_none trace_runValidation
        store_runValidation subscriptions_runValidation)

lemma uvv_reemit:
  "noSubscribers env \<Longrightarrow> updateValueAndValidity env p False True s = fold (reemit env) (p # ancestors p) s"
  by (induction p arbitrary: s rule: ancestors.induct) (simp_all add: updateOwn_reemit Let_def)

lemma setVisible_reemit:
  assumes "noSubscribers env"
  shows "setVisible env this v s =
     fold (reemit env) (this # ancestors this @ ancestors this)
       (emit (VisibilityChangesNext this v) (modify this (\<lambda>ob. ob\<lparr>priv_visible := v\<rparr>) s))"
proof (cases "parent this")
  case None
  then show ?thesis
    using assms by (simp add: setVisible_def Let_def notifySubscribers_none uvv_reemit ancestors_root)
next
  case (Some par)
  then show ?thesis
    using assms by (simp add: setVisible_def Let_def notifySubscribers_none uvv_reemit ancestors_parent)
qed

lemma trace_reemit:
  "trace (reemit env q s) = trace s @ [Call_updateValueAndValidity q, Call_updateValue q,
      ValueChangesNext q (updateValue env q (store s)), Call_runValidation q,
      ErrorsChangesNext q (priv_errors (store (reemit env q s) q))]"
  by (simp add: reemit_def Let_def)

lemma subscriptions_reemit [simp]: "subscriptions (reemit env q s) = subscriptions s"
  by (simp add: reemit_def Let_def)

lemma store_reemit_other: "p \<noteq> q \<Longrightarrow> store (reemit env q s) p = store s p"
  by (simp add: reemit_def Let_def)

lemma priv_visible_reemit [simp]: "priv_visible (store (reemit env q s) p) = priv_visible (store s p)"
  by (simp add: reemit_def Let_def)

lemma properties_reemit [simp]: "properties (store (reemit env q s) p) = properties (store s p)"
  by (simp add: reemit_def Let_def)

lemma calls_fold_reemit: "calls (trace (fold (reemit env) qs s)) = calls (trace s) @ qs"
  by (induction qs arbitrary: s) (simp_all add: trace_reemit)

lemma valueEmissions_fold_reemit:
  "valueEmissions (trace (fold (reemit env) qs s)) = valueEmissions (trace s) @ qs"
  by (induction qs arbitrary: s) (simp_all add: trace_reemit)

lemma errorsEmissions_fold_reemit:
  "errorsEmissions (trace (fold (reemit env) qs s)) = errorsEmissions (trace s) @ qs"
  by (induction qs arbitrary: s) (simp_all add: trace_reemit)

lemma visibilityEmissions_fold_reemit:
  "visibilityEmissions p (trace (fold (reemit env) qs s)) = visibilityEmissions p (trace s)"
  by (induction qs arbitrary: s) (simp_all add: trace_reemit)

lemma subscriptions_fold_reemit: "subscriptions (fold (reemit env) qs s) = subscriptions s"
  by (induction qs arbitrary: s) simp_all

lemma priv_visible_fold_reemit: "priv_visible (store (fold (reemit env) qs s) p) = priv_visible (store s p)"
  by (induction qs arbitrary: s) simp_all

lemma properties_fold_reemit: "properties (store (fold (reemit env) qs s) p) = properties (store s p)"
  by (induction qs arbitrary: s) simp_all

lemma store_fold_reemit_other: "p \<notin> set qs \<Longrightarrow> store (fold (reemit env) qs s) p = store s p"
  by (induction qs arbitrary: s) (simp_all add: store_reemit_other)

lemma subscriptions_setVisible:
  "noSubscribers env \<Longrightarrow> subscriptions (setVisible env this v s) = subscriptions s"
  by (simp add: setVisible_reemit subscriptions_fold_reemit)

lemma priv_visible_setVisible:
  "noSubscribers env \<Longrightarrow>
   priv_visible (store (setVisible env this v s) q) = (if q = this then v else priv_visible (store s q))"
  by (simp add: setVisible_reemit priv_visible_fold_reemit)

lemma properties_setVisible:
  "noSubscribers env \<Longrightarrow> properties (store (setVisible env this v s) q) = properties (store s q)"
  by (simp add: setVisible_reemit properties_fold_reemit)

lemma store_setVisible_other:
  "noSubscribers env \<Longrightarrow> q \<notin> set (this # ancestors this) \<Longrightarrow>
   store (setVisible env this v s) q = store s q"
  by (simp add: setVisible_reemit store_fold_reemit_other store_reemit_other)

lemma visibilityEmissions_setVisible:
  "noSubscribers env \<Longrightarrow>
   visibilityEmissions this (trace (setVisible env this v s)) = visibilityEmissions this (trace s) @ [v]"
  by (simp add: setVisible_reemit visibilityEmissions_fold_reemit trace_reemit)

lemma noSubscribers_plain [simp]: "noSubscribers plain_env"
  by (simp add: noSubscribers_def plain_env_def)

lemma noSubscribers_strict [simp]: "noSubscribers strict_env"
  by (simp add: noSubscribers_def strict_env_def)

subsection \<open>Path resolution reads the dictionaries only\<close>

lemma getProperty_properties:
  assumes "\<forall>q. properties (h q) = properties (h' q)"
  shows "getProperty h this pth = getProperty h' this pth"
  using assms
proof (induction h this pth rule: getProperty.induct)
  case (1 h this pth)
  have eq: "properties (h' this) = properties (h this)" using "1.prems" by simp
  show ?case
  proof (cases "properties (h this)")
    case None
    then show ?thesis using eq by (simp add: getProperty.simps [of _ this pth])
  next
    case (Some props)
    define idx where "idx = str_indexOf pth CHR ''/''"
    define pid where "pid = (if idx \<noteq> - 1 then take (nat idx) pth else pth)"
    define property where "property = (case map_of props pid of None \<Rightarrow> Undefined | Some p \<Rightarrow> p)"
    show ?thesis
    proof (cases "isGroup this \<and> idx \<noteq> - 1 \<and> (\<exists>child. property = Obj child \<and> isGroup child)")
      case True
      then obtain child where c: "property = Obj child" "isGroup child" by blast
      have "getProperty h child (drop (nat idx + 1) pth) = getProperty h' child (drop (nat idx + 1) pth)"
        using "1.IH" [of props idx pid property child] True Some c "1.prems"
        by (simp add: idx_def pid_def property_def)
      moreover have "(case map_of props (take (nat idx) pth) of None \<Rightarrow> Undefined | Some p \<Rightarrow> p) = Obj child"
        using c True by (simp add: property_def pid_def)
      ultimately show ?thesis
        using True Some eq c
        by (simp add: getProperty.simps [of _ this pth] Let_def idx_def [symmetric])
    next
      case False
      then show ?thesis
        using Some eq
        by (auto simp: getProperty.simps [of _ this pth] Let_def idx_def [symmetric] pid_def [symmetric]
            property_def [symmetric] split: nullable.splits)
    qed
  qed
qed

lemma searchLoop_properties:
  assumes "\<forall>q. properties (h q) = properties (h' q)"
  shows "searchLoop h pth this result = searchLoop h' pth this result"
  using assms
proof (induction h pth this result rule: searchLoop.induct)
  case (1 h pth g p result)
  show ?case by simp
next
  case (2 h pth g p base result)
  have "getProperty h base pth = getProperty h' base pth"
    using "2.prems" by (rule getProperty_properties)
  then show ?case using 2 by (auto split: sum.splits)
qed

lemma searchProperty_properties:
  assumes "\<forall>q. properties (h q) = properties (h' q)"
  shows "searchProperty h this pth = searchProperty h' this pth"
  using getProperty_properties [OF assms] searchLoop_properties [OF assms]
  by (simp add: searchProperty_def)

subsection \<open>The subscriptions as subscribers\<close>

lemma reactive_fields [simp]:
  "schemaValidator (reactive env) = schemaValidator env"
  "validatorRegistry (reactive env) = validatorRegistry env"
  "updateValue (reactive env) = updateValue env"
  "subscribers (reactive env) = notify env"
  by (simp_all add: reactive_def)

lemma validationResult_reactive [simp]: "validationResult (reactive env) = validationResult env"
  by (rule ext)+ (simp add: validationResult_def)

lemma runValidation_reactive [simp]: "runValidation (reactive env) = runValidation env"
  by (rule ext)+ (simp add: runValidation_def)

lemma store_notifySubscribers_reactive:
  "store (notifySubscribers (reactive env) d sg s) = store (notify env d sg (s\<lparr>trace := []\<rparr>))"
  "subscriptions (notifySubscribers (reactive env) d sg s) = subscriptions (notify env d sg (s\<lparr>trace := []\<rparr>))"
  "calls (trace (notifySubscribers (reactive env) d sg s)) =
     calls (trace s) @ calls (trace (notify env d sg (s\<lparr>trace := []\<rparr>)))"
  by (simp_all add: notifySubscribers_def Let_def)

lemma setBinding_fields [simp]:
  "store (setBinding k b s) = store s"
  "trace (setBinding k b s) = trace s"
  "subscriptions (setBinding k b s) = (subscriptions s)[k := (fst (subscriptions s ! k), b)]"
  by (simp_all add: setBinding_def owner_def)

lemma setBinding_subscriptions [simp]:
  "setBinding k b (s\<lparr>subscriptions := xs\<rparr>) = s\<lparr>subscriptions := xs[k := (fst (xs ! k), b)]\<rparr>"
  by (simp add: setBinding_def owner_def)

lemma fold_unchanged: "(\<And>x. x \<in> set xs \<Longrightarrow> f x s = s) \<Longrightarrow> fold f xs s = s"
  by (induction xs) simp_all

lemma deliver_unobserved:
  assumes "\<forall>sl \<in> set (slots (bindingAt s k)). dependency sl \<noteq> d"
  shows "deliver env k d sg s = s"
  unfolding deliver_def
proof (rule fold_unchanged)
  fix i assume "i \<in> set [0..<length (slots (bindingAt s k))]"
  then have "slots (bindingAt s k) ! i \<in> set (slots (bindingAt s k))" by simp
  then show "(if dependency (slots (bindingAt s k) ! i) = d then receive env k i sg s else s) = s"
    using assms by auto
qed

lemma notify_unobserved:
  assumes "unobserved s d"
  shows "notify env d sg s = s"
  unfolding notify_def
proof (rule fold_unchanged)
  fix k assume "k \<in> set [0..<length (subscriptions s)]"
  then have "subscriptions s ! k \<in> set (subscriptions s)" by simp
  then have "\<forall>sl \<in> set (slots (bindingAt s k)). dependency sl \<noteq> d"
    using assms by (simp add: unobserved_def bindingAt_def)
  then show "deliver env k d sg s = s" by (rule deliver_unobserved)
qed

lemma notifySubscribers_unobserved:
  assumes "unobserved s d"
  shows "notifySubscribers (reactive env) d sg s = s"
proof -
  have "unobserved (s\<lparr>trace := []\<rparr>) d" using assms by (simp add: unobserved_def)
  then show ?thesis by (simp add: notifySubscribers_def notify_unobserved)
qed

lemma updateOwn_unobserved:
  assumes "noSubscribers env" and "unobserved s p"
  shows "updateOwn (reactive env) p True s = updateOwn env p True s"
proof -
  let ?v = "updateValue env p (store s)"
  let ?m = "emit (ValueChangesNext p ?v) (modify p (\<lambda>ob. ob\<lparr>valueChanges := ?v\<rparr>)
        (modify p (\<lambda>ob. ob\<lparr>priv_value := ?v\<rparr>)
           (emit (Call_updateValue p) (emit (Call_updateValueAndValidity p) s))))"
  have "unobserved ?m p" using assms(2) by (simp add: unobserved_def)
  then have "notifySubscribers (reactive env) p (ValueSignal ?v) ?m = ?m"
    by (rule notifySubscribers_unobserved)
  then show ?thesis
    using assms(1) by (simp add: updateOwn_steps notifySubscribers_none)
qed

lemma unobserved_reemit [simp]: "unobserved (reemit env q s) d = unobserved s d"
  by (simp add: unobserved_def)

lemma uvv_unobserved:
  assumes "noSubscribers env"
  shows "\<forall>q \<in> set (p # ancestors p). unobserved s q \<Longrightarrow>
      updateValueAndValidity (reactive env) p False True s = updateValueAndValidity env p False True s"
proof (induction p arbitrary: s rule: ancestors.induct)
  case (1 g p)
  then show ?case using assms by (simp add: updateOwn_unobserved)
next
  case (2 g p par)
  let ?t = "FormProperty g p (Some par)"
  have a: "updateOwn (reactive env) ?t True s = updateOwn env ?t True s"
    using 2(2) assms by (simp add: updateOwn_unobserved)
  have "\<forall>q \<in> set (par # ancestors par). unobserved (updateOwn env ?t True s) q"
    using 2(2) assms by (simp add: updateOwn_reemit)
  then have "updateValueAndValidity (reactive env) par False True (updateOwn env ?t True s)
      = updateValueAndValidity env par False True (updateOwn env ?t True s)"
    by (rule 2(1))
  then show ?case using a by (simp add: Let_def)
qed

lemma setVisible_unobserved:
  assumes "noSubscribers env" and "\<forall>q \<in> set (this # ancestors this). unobserved s q"
  shows "setVisible (reactive env) this v s = setVisible env this v s"
proof -
  let ?m = "emit (VisibilityChangesNext this v) (modify this (\<lambda>ob. ob\<lparr>priv_visible := v\<rparr>) s)"
  have u: "\<forall>q \<in> set (this # ancestors this). unobserved ?m q"
    using assms(2) by (simp add: unobserved_def)
  then have n: "notifySubscribers (reactive env) this (VisibilitySignal v) ?m = ?m"
    by (simp add: notifySubscribers_unobserved)
  have s1: "updateValueAndValidity (reactive env) this False True ?m = updateValueAndValidity env this False True ?m"
    using assms(1) u by (rule uvv_unobserved)
  show ?thesis
  proof (cases "parent this")
    case None
    then show ?thesis using n s1 assms(1) by (simp add: setVisible_def Let_def notifySubscribers_none)
  next
    case (Some par)
    have "\<forall>q \<in> set (par # ancestors par). unobserved (updateValueAndValidity env this False True ?m) q"
      using u assms(1) ancestors_parent [OF Some]
      by (simp add: uvv_reemit unobserved_def subscriptions_fold_reemit)
    then have "updateValueAndValidity (reactive env) par False True (updateValueAndValidity env this False True ?m)
        = updateValueAndValidity env par False True (updateValueAndValidity env this False True ?m)"
      using assms(1) by (simp add: uvv_unobserved)
    then show ?thesis using n s1 assms(1) Some by (simp add: setVisible_def Let_def notifySubscribers_none)
  qed
qed

lemma live_fields [simp]:
  "kind (live k sls prev) = k" "slots (live k sls prev) = sls"
  "previous (live k sls prev) = prev" "stopped (live k sls prev) = False"
  "(live k sls prev)\<lparr>slots := sls'\<rparr> = live k sls' prev"
  "(live k sls prev)\<lparr>previous := prev'\<rparr> = live k sls prev'"
  by (simp_all add: live_def)

lemma pathSlot_fields [simp]:
  "dependency (pathSlot d allowed c vis) = d" "allowedValues (pathSlot d allowed c vis) = allowed"
  "latestValueCheck (pathSlot d allowed c vis) = c" "latestVisibility (pathSlot d allowed c vis) = vis"
  "(pathSlot d allowed c vis)\<lparr>latestValueCheck := c'\<rparr> = pathSlot d allowed c' vis"
  "(pathSlot d allowed c vis)\<lparr>latestVisibility := vis'\<rparr> = pathSlot d allowed c vis'"
  by (simp_all add: pathSlot_def)

lemma slotResult_pathSlot [simp]:
  "slotResult (pathSlot d allowed (Some c) (Some vis)) = Some (c \<and> vis)"
  "slotResult (pathSlot d allowed None vo) = None"
  "slotResult (pathSlot d allowed co None) = None"
  by (simp_all add: slotResult_def split: option.splits)

lemma valueCheck_single: "w \<noteq> ''$ANY$'' \<Longrightarrow> valueCheck [VStr w] v = Inr (v = VStr w)"
  by (auto simp: valueCheck_def)

lemma expression_one [simp]:
  "expression [pathSlot d allowed (Some c) (Some vis)] = Some (c \<and> vis)"
  "expression [pathSlot d allowed None vo] = None"
  "expression [pathSlot d allowed co None] = None"
  by (simp_all add: expression_def)

lemma expression_two [simp]:
  "expression [pathSlot d allowed (Some c) (Some vis), pathSlot d' allowed' (Some c') (Some vis')]
     = Some ((c \<and> vis) \<or> (c' \<and> vis'))"
  "expression [pathSlot d allowed None vo, sl] = None"
  "expression [pathSlot d allowed co None, sl] = None"
  "expression [sl, pathSlot d allowed None vo] = None"
  "expression [sl, pathSlot d allowed co None] = None"
  by (cases "slotResult sl"; auto simp: expression_def)+

lemma chk_a_b:
  assumes "searchProperty h this ''a'' = Inr (Obj pa)" and "searchProperty h this ''b'' = Inr (Obj pb)"
  shows "chk h this [[(''a'', [VStr ''x'']), (''b'', [VStr ''y''])]] =
     Inr (priv_value (h pa) = VStr ''x'' \<and> priv_value (h pb) = VStr ''y'')"
  using assms by (simp add: Let_def chk.simps chkItem.simps)

subsection \<open>The concrete form\<close>

lemma form_resolves:
  "searchProperty (form_heap va visa vb visb) form_c ''a'' = Inr (Obj form_a)"
  "searchProperty (form_heap va visa vb visb) form_c ''b'' = Inr (Obj form_b)"
  "searchProperty (form_heap va visa vb visb) form_a ''b'' = Inr (Obj form_b)"
  by (simp_all add: searchProperty_def form_heap_def form_c_def form_root_def
      getProperty.simps init_pstate_def form_a_def form_b_def)

lemma form_ancestors [simp]:
  "ancestors form_a = [form_root]" "ancestors form_b = [form_root]" "ancestors form_c = [form_root]"
  "ancestors form_root = []"
  "parent form_a = Some form_root" "parent form_b = Some form_root" "parent form_c = Some form_root"
  "parent form_root = None"
  by (simp_all add: form_a_def form_b_def form_c_def form_root_def)

lemma form_distinct [simp]:
  "form_a \<noteq> form_b" "form_a \<noteq> form_c" "form_a \<noteq> form_root"
  "form_b \<noteq> form_a" "form_b \<noteq> form_c" "form_b \<noteq> form_root"
  "form_c \<noteq> form_a" "form_c \<noteq> form_b" "form_c \<noteq> form_root"
  "form_root \<noteq> form_a" "form_root \<noteq> form_b" "form_root \<noteq> form_c"
  by (simp_all add: form_a_def form_b_def form_c_def form_root_def)

lemma form_fields [simp]:
  "store (form_state va visa vb visb) = form_heap va visa vb visb"
  "trace (form_state va visa vb visb) = []"
  "subscriptions (form_state va visa vb visb) = []"
  "valueChanges (form_heap va visa vb visb form_a) = va"
  "valueChanges (form_heap va visa vb visb form_b) = vb"
  "priv_value (form_heap va visa vb visb form_a) = va"
  "priv_value (form_heap va visa vb visb form_b) = vb"
  "priv_visible (form_heap va visa vb visb form_a) = visa"
  "priv_visible (form_heap va visa vb visb form_b) = visb"
  by (simp_all add: form_state_def form_heap_def form_a_def form_b_def form_root_def init_pstate_def)

lemma form_properties:
  "properties (form_heap va visa vb visb q) =
     (if q = form_root then Some [(''a'', Obj form_a), (''b'', Obj form_b), (''c'', Obj form_c)] else None)"
  by (simp add: form_heap_def init_pstate_def)

lemma form_resolves_any:
  assumes "\<forall>q. properties (h q) =
     (if q = form_root then Some [(''a'', Obj form_a), (''b'', Obj form_b), (''c'', Obj form_c)] else None)"
  shows "searchProperty h form_c ''a'' = Inr (Obj form_a)"
    and "searchProperty h form_c ''b'' = Inr (Obj form_b)"
    and "searchProperty h form_a ''b'' = Inr (Obj form_b)"
  using searchProperty_properties [of h "form_heap VNull True VNull True"] assms
  by (simp_all add: form_properties form_resolves)

lemma chk_form:
  assumes "\<forall>q. properties (h q) =
     (if q = form_root then Some [(''a'', Obj form_a), (''b'', Obj form_b), (''c'', Obj form_c)] else None)"
  shows "chk h form_c [[(''a'', [VStr ''x'']), (''b'', [VStr ''y''])]] =
     Inr (priv_value (h form_a) = VStr ''x'' \<and> priv_value (h form_b) = VStr ''y'')"
  by (rule chk_a_b) (simp_all add: form_resolves_any [OF assms])

lemma plain_updateValue: "updateValue plain_env p h = priv_value (h p)"
  by (simp add: plain_env_def)

lemmas binder_defs = subscribe_def subscribeSlot_def notify_def deliver_def receive_def recompute_def
  bindingAt_def owner_def Let_def

lemmas run_defs = setValue_def uvv_leaf uvv_root updateOwn_steps form_env_def store_notifySubscribers_reactive
  subscriptions_setVisible store_setVisible_other priv_visible_setVisible properties_setVisible
  calls_setVisible noSubscribers_noReentry
  subscriptions_runValidation store_runValidation binder_defs valueCheck_single form_properties
  plain_updateValue

lemma bind_flat_a:
  "bindVisibility form_env form_c flat_a (form_state va True vb True) =
     (None, setVisible plain_env form_c (va = VStr ''x'')
        ((form_state va True vb True)\<lparr>subscriptions :=
           [(form_c, live ValueCheck [pathSlot form_a [VStr ''x''] (Some (va = VStr ''x'')) (Some True)]
               (Some (va = VStr ''x'')))]\<rparr>))"
  by (simp add: bindVisibility_def flat_a_def form_resolves form_env_def
      subscribe_def subscribeSlot_def Let_def receive_def recompute_def bindingAt_def owner_def
      valueCheck_single setVisible_unobserved unobserved_def)

lemma bind_flat_b:
  "bindVisibility form_env form_a flat_b (form_state va True vb True) =
     (None,
      setVisible plain_env form_a (vb = VStr ''y'')
       ((form_state va True vb True)\<lparr>subscriptions :=
          [(form_a, live ValueCheck [pathSlot form_b [VStr ''y''] (Some (vb = VStr ''y'')) (Some True)]
              (Some (vb = VStr ''y'')))]\<rparr>))"
  by (simp add: bindVisibility_def flat_b_def form_resolves form_env_def binder_defs
      valueCheck_single setVisible_unobserved unobserved_def subscriptions_setVisible
      store_setVisible_other)

lemma bind_oneOf:
  "bindVisibility form_env form_c oneOf_a_b (form_state va True vb True) =
     (None,
      setVisible plain_env form_c (vb = VStr ''y'')
       ((setVisible plain_env form_c (va = VStr ''x'')
          ((form_state va True vb True)\<lparr>subscriptions :=
             [(form_c, live ValueCheck [pathSlot form_a [VStr ''x''] (Some (va = VStr ''x'')) (Some True)]
                 (Some (va = VStr ''x'')))]\<rparr>))
        \<lparr>subscriptions :=
           [(form_c, live ValueCheck [pathSlot form_a [VStr ''x''] (Some (va = VStr ''x'')) (Some True)]
               (Some (va = VStr ''x''))),
            (form_c, live ValueCheck [pathSlot form_b [VStr ''y''] (Some (vb = VStr ''y'')) (Some True)]
               (Some (vb = VStr ''y'')))]\<rparr>))"
  by (simp add: bindVisibility_def oneOf_a_b_def form_resolves form_env_def binder_defs
      valueCheck_single setVisible_unobserved unobserved_def subscriptions_setVisible
      store_setVisible_other form_resolves_any form_properties properties_setVisible)

lemma bind_allOf:
  "bindVisibility form_env form_c allOf_a_b (form_state va True vb True) =
     (None,
      setVisible plain_env form_c (va = VStr ''x'' \<and> vb = VStr ''y'')
       ((form_state va True vb True)\<lparr>subscriptions :=
          [(form_c, live (AllOfCheck [[(''a'', [VStr ''x'']), (''b'', [VStr ''y''])]])
              [pathSlot form_a [VStr ''x''] (Some (va = VStr ''x'' \<and> vb = VStr ''y'')) (Some True),
               pathSlot form_b [VStr ''y''] (Some (va = VStr ''x'' \<and> vb = VStr ''y'')) (Some True)]
              (Some (va = VStr ''x'' \<and> vb = VStr ''y'')))]\<rparr>))"
  by (simp add: bindVisibility_def allOf_a_b_def form_resolves form_env_def binder_defs
      valueCheck_single setVisible_unobserved unobserved_def subscriptions_setVisible
      store_setVisible_other chk_form form_properties)

section \<open>Path resolution\<close>

text \<open>
  Claim C1 says that \<^verbatim>\<open>searchProperty\<close> with a relative path walks upward through the
  parents and returns the first match, so that from \<^verbatim>\<open>group1/group2/leaf\<close> the path
  \<^verbatim>\<open>sibling\<close> falls back to \<^verbatim>\<open>group1\<close> when \<^verbatim>\<open>group2\<close> has no such child.  The loop goes on
  only while the result is \<^verbatim>\<open>null\<close>, and a dictionary answers \<^verbatim>\<open>undefined\<close> for a key it
  does not have: in the form below \<^verbatim>\<open>group2\<close> has no \<^verbatim>\<open>sibling\<close>, \<^verbatim>\<open>group1\<close> has one, and the
  search from the leaf ends at \<^verbatim>\<open>group2\<close> with \<^verbatim>\<open>undefined\<close>.
\<close>

theorem searchProperty_stops_at_undefined: "searchProperty ex_heap ex_leaf ''sibling'' = Inr Undefined
   \<and> getProperty ex_heap ex_group2 ''sibling'' = Inr Undefined
   \<and> getProperty ex_heap ex_group1 ''sibling'' = Inr (Obj ex_sibling)
   \<and> parent ex_leaf = Some ex_group2 \<and> parent ex_group2 = Some ex_group1"
  by code_simp

section \<open>The membership predicate\<close>

text \<open>
  Claim C8: with the allowed values \<^verbatim>\<open>["$ANY$"]\<close> the predicate of a dependency is true
  exactly when the dependency's value is a string or an array of non-zero length, whatever
  it holds, and false for the empty string and the empty array.  (For \<^verbatim>\<open>null\<close> and
  \<^verbatim>\<open>undefined\<close> reading \<^verbatim>\<open>length\<close> raises; the predicate gives no boolean then.)
\<close>

theorem valueCheck_any_is_nonzero_length:
  "(valueCheck [VStr ''$ANY$''] v = Inr True) =
     ((\<exists>s. v = VStr s \<and> s \<noteq> []) \<or> (\<exists>r xs. v = VArr r xs \<and> xs \<noteq> []))
   \<and> valueCheck [VStr ''$ANY$''] (VStr []) = Inr False
   \<and> valueCheck [VStr ''$ANY$''] (VArr r []) = Inr False"
  by (cases v) (simp_all add: valueCheck_def)

section \<open>Errors\<close>

text \<open>
  Claim C3 says that \<^verbatim>\<open>errors\<close> is \<^verbatim>\<open>null\<close> or a non-empty list at all times, also after
  \<^verbatim>\<open>extendErrors\<close> with \<^verbatim>\<open>null\<close>, \<^verbatim>\<open>undefined\<close> or an empty list.  \<^verbatim>\<open>_runValidation\<close> turns
  an empty list into \<^verbatim>\<open>null\<close>; \<^verbatim>\<open>extendErrors\<close> does not: on a property without errors it
  stores the empty list, and the property is not valid any more although it has no error.
\<close>

theorem extendErrors_stores_empty_list: "priv_errors (store ex_state ex_leaf) = None
   \<and> priv_errors (store (extendErrors ex_leaf (CList []) ex_state) ex_leaf) = Some []
   \<and> priv_errors (store (extendErrors ex_leaf CFalsy ex_state) ex_leaf) = Some []
   \<and> \<not> valid (store (extendErrors ex_leaf (CList []) ex_state)) ex_leaf"
  by code_simp

text \<open>
  Claim C5: \<^verbatim>\<open>_runValidation\<close> always hands the errors it stored to the error stream, it
  never stores an empty list, and when the schema validator answers a list and a custom
  validator is registered for the property's path, the stored errors are the schema's
  followed by the custom validator's: by the one error object, or by the elements of the
  list it answered (\<^verbatim>\<open>null\<close> when the whole is empty).
\<close>

theorem runValidation_merges_custom_errors:
  "trace (runValidation env this s) =
     trace s @ [Call_runValidation this,
                ErrorsChangesNext this (priv_errors (store (runValidation env this s) this))]
   \<and> priv_errors (store (runValidation env this s) this) \<noteq> Some []
   \<and> (schemaValidator env this (priv_value (store s this)) = Some schemaErrors \<longrightarrow>
      validatorRegistry env (path this) = Some customValidator \<longrightarrow>
      priv_errors (store (runValidation env this s) this) =
        (case customValidator (priv_value (store s this)) this (findRoot this) (store s) of
           CSingle e \<Rightarrow> Some (schemaErrors @ [e])
         | CList es \<Rightarrow> if schemaErrors @ es = [] then None else Some (schemaErrors @ es)
         | CFalsy \<Rightarrow> if schemaErrors = [] then None else Some schemaErrors))"
  by (auto simp: trace_runValidation store_runValidation validationResult_def Let_def
      split: custom_result.splits option.splits)

text \<open>The instance of claim C5: \<^verbatim>\<open>[{code: "required"}]\<close> from the schema and
  \<^verbatim>\<open>{code: "custom"}\<close> from the custom validator.\<close>

theorem runValidation_merges_custom_errors_witness:
  "priv_errors (store (runValidation strict_env ex_leaf ex_state) ex_leaf) =
     Some [ErrorDescriptor ''required'', ErrorDescriptor ''custom'']
   \<and> trace (runValidation strict_env ex_leaf ex_state) =
     [Call_runValidation ex_leaf,
      ErrorsChangesNext ex_leaf (Some [ErrorDescriptor ''required'', ErrorDescriptor ''custom''])]"
  using runValidation_merges_custom_errors [of strict_env ex_leaf ex_state "[ErrorDescriptor ''required'']"
      "\<lambda>v p r h. CSingle (ErrorDescriptor ''custom'')"]
  by (simp add: strict_env_def ex_leaf_def ex_state_def)

section \<open>Upward propagation\<close>

text \<open>
  The statements of this section hold for every program: \<open>env\<close> gives the validators,
  \<^verbatim>\<open>_updateValue\<close> and the subscribers of the subjects, which run inside \<^verbatim>\<open>next\<close>.  A
  subscription of the visibility binder whose result changes calls \<^verbatim>\<open>setVisible\<close>, and
  \<^verbatim>\<open>setVisible\<close> calls \<^verbatim>\<open>updateValueAndValidity\<close> on the dependent property and on its
  ancestors (lines 168-171): these calls happen inside the call that emitted the value.
\<close>










section \<open>Visibility\<close>

text \<open>
  The statements of this section are about the form with the leaves \<^verbatim>\<open>a\<close>, \<^verbatim>\<open>b\<close> and \<^verbatim>\<open>c\<close>,
  run by \<open>form_env\<close>: the subscriptions of \<^verbatim>\<open>_bindVisibility\<close> are the subscribers of the
  subjects, and they run inside the calls of \<^verbatim>\<open>next\<close>.
\<close>

text \<open>
  Claim C2 says that with \<^verbatim>\<open>oneOf: [{"a": ["x"]}, {"b": ["y"]}]\<close> the property is visible
  exactly when \<^verbatim>\<open>a\<close> has the value \<^verbatim>\<open>"x"\<close> and is visible, or \<^verbatim>\<open>b\<close> has the value \<^verbatim>\<open>"y"\<close> and
  is visible.  The loop of \<^verbatim>\<open>__bindVisibility\<close> subscribes to each branch on its own, and each
  subscription calls \<^verbatim>\<open>setVisible\<close> with the result of its branch alone.  In the form
  below \<^verbatim>\<open>a\<close> is visible and has the value \<^verbatim>\<open>"x"\<close>, \<^verbatim>\<open>b\<close> has the value \<^verbatim>\<open>"z"\<close>: binding
  makes the property visible for the first branch and then hides it for the second.
\<close>

theorem oneOf_hides_although_first_branch_holds:
  "\<not> (priv_visible
        (store (snd (bindVisibility form_env form_c oneOf_a_b
           (form_state (VStr ''x'') True (VStr ''z'') True))) form_c)
      = ((valueChanges (store (snd (bindVisibility form_env form_c oneOf_a_b
             (form_state (VStr ''x'') True (VStr ''z'') True))) form_a) = VStr ''x''
          \<and> priv_visible (store (snd (bindVisibility form_env form_c oneOf_a_b
             (form_state (VStr ''x'') True (VStr ''z'') True))) form_a))
        \<or> (valueChanges (store (snd (bindVisibility form_env form_c oneOf_a_b
             (form_state (VStr ''x'') True (VStr ''z'') True))) form_b) = VStr ''y''
          \<and> priv_visible (store (snd (bindVisibility form_env form_c oneOf_a_b
             (form_state (VStr ''x'') True (VStr ''z'') True))) form_b))))"
  unfolding bind_oneOf
  by (simp add: priv_visible_setVisible store_setVisible_other)

text \<open>
  Claim C4 says that with \<^verbatim>\<open>allOf: [{"a": ["x"], "b": ["y"]}]\<close> the property is visible
  after any recomputation exactly when \<^verbatim>\<open>a\<close> has the value \<^verbatim>\<open>"x"\<close> and \<^verbatim>\<open>b\<close> has the value
  \<^verbatim>\<open>"y"\<close>.  The subscription keeps, for each dependency, the result \<^verbatim>\<open>_chk\<close> had when that
  dependency emitted its value last, and it is these results that are combined, with
  \<^verbatim>\<open>values.indexOf(true) !== -1\<close>.  In the form below \<^verbatim>\<open>a\<close> and \<^verbatim>\<open>b\<close> are visible and have the
  values \<^verbatim>\<open>"x"\<close> and \<^verbatim>\<open>"y"\<close> when \<^verbatim>\<open>c\<close> is bound, so \<^verbatim>\<open>c\<close> is visible.  Then \<^verbatim>\<open>a\<close> is set to
  \<^verbatim>\<open>"q"\<close>: \<^verbatim>\<open>_chk\<close> answers \<^verbatim>\<open>false\<close> for the emission of \<^verbatim>\<open>a\<close>, the result kept for \<^verbatim>\<open>b\<close> is
  still \<^verbatim>\<open>true\<close>, and \<^verbatim>\<open>c\<close> stays visible although \<^verbatim>\<open>a\<close> does not have the value \<^verbatim>\<open>"x"\<close>.
\<close>

theorem allOf_stays_visible_after_mismatch:
  "fst (bindVisibility form_env form_c allOf_a_b (form_state (VStr ''x'') True (VStr ''y'') True)) = None
   \<and> priv_visible (store (snd (bindVisibility form_env form_c allOf_a_b
        (form_state (VStr ''x'') True (VStr ''y'') True))) form_c)
   \<and> priv_value (store (setValue form_env form_a (VStr ''q'') False
        (snd (bindVisibility form_env form_c allOf_a_b
           (form_state (VStr ''x'') True (VStr ''y'') True)))) form_a) = VStr ''q''
   \<and> priv_value (store (setValue form_env form_a (VStr ''q'') False
        (snd (bindVisibility form_env form_c allOf_a_b
           (form_state (VStr ''x'') True (VStr ''y'') True)))) form_b) = VStr ''y''
   \<and> priv_visible (store (setValue form_env form_a (VStr ''q'') False
        (snd (bindVisibility form_env form_c allOf_a_b
           (form_state (VStr ''x'') True (VStr ''y'') True)))) form_a)
   \<and> priv_visible (store (setValue form_env form_a (VStr ''q'') False
        (snd (bindVisibility form_env form_c allOf_a_b
           (form_state (VStr ''x'') True (VStr ''y'') True)))) form_b)
   \<and> priv_visible (store (setValue form_env form_a (VStr ''q'') False
        (snd (bindVisibility form_env form_c allOf_a_b
           (form_state (VStr ''x'') True (VStr ''y'') True)))) form_c)
   \<and> subscriptions (setValue form_env form_a (VStr ''q'') False
        (snd (bindVisibility form_env form_c allOf_a_b
           (form_state (VStr ''x'') True (VStr ''y'') True)))) =
       [(form_c, live (AllOfCheck [[(''a'', [VStr ''x'']), (''b'', [VStr ''y''])]])
           [pathSlot form_a [VStr ''x''] (Some False) (Some True),
            pathSlot form_b [VStr ''y''] (Some True) (Some True)] (Some True))]"
  unfolding bind_allOf
  by (simp add: run_defs chk_form)

text \<open>
  Claim C9 says that two consecutive recomputations with the same result put only one
  value on the visibility stream.  \<^verbatim>\<open>distinctUntilChanged\<close> sits inside each subscription,
  and \<^verbatim>\<open>__bindVisibility\<close> makes one subscription for each branch: with two branches that
  are both true, binding evaluates one branch after the other, and each of the two
  subscriptions calls \<^verbatim>\<open>setVisible(true)\<close>.
\<close>

theorem oneOf_branches_notify_twice:
  "visibilityEmissions form_c
     (trace (snd (bindVisibility form_env form_c oneOf_a_b
        (form_state (VStr ''x'') True (VStr ''y'') True)))) = [True, True]"
  unfolding bind_oneOf
  by (simp add: visibilityEmissions_setVisible)

end
